theory Spec2Isabelle
  imports Complex_Main "HOL-Library.AList" "HOL-Library.Sublist" "HOL-Library.Multiset"
begin

section \<open>Chart Similarity Analyzer: the job lifecycle of \<open>main.py\<close>\<close>

text \<open>
  The module keeps one dictionary \<open>jobs\<close> (job id to job record), three directories on
  disk and the background tasks that FastAPI runs, in worker threads, after a response.
  Every handler is a function from the application state to a result and the state it
  leaves: the result is \<open>Inl\<close> of the exception the handler raises or \<open>Inr\<close> of its
  response. A background task is a sequence of steps, one for each of its writes to the
  store.
  The external routines \<open>find_most_similar_charts_in_video\<close> and
  \<open>prepare_results_for_json\<close> are not part of the module; what they do (the percentages
  passed to the progress callback, and the value returned or the exception raised) is an
  input of the model.
\<close>

subsection \<open>Values\<close>

text \<open>JSON-compatible Python values, as \<open>json.dump\<close> accepts them.\<close>

datatype json =
    JNull
  | JBool bool
  | JNum int
  | JStr string
  | JList "json list"
  | JDict "(string \<times> json) list"

text \<open>Python truthiness (\<open>if x:\<close>) of such a value.\<close>

fun truthy :: "json \<Rightarrow> bool" where
  "truthy JNull = False"
| "truthy (JBool b) = b"
| "truthy (JNum n) = (n \<noteq> 0)"
| "truthy (JStr s) = (s \<noteq> [])"
| "truthy (JList xs) = (xs \<noteq> [])"
| "truthy (JDict kvs) = (kvs \<noteq> [])"

text \<open>Truthiness of an \<open>Optional[str]\<close>: \<open>None\<close> and the empty string are false.\<close>

fun truthy_str :: "string option \<Rightarrow> bool" where
  "truthy_str None = False"
| "truthy_str (Some s) = (s \<noteq> [])"

datatype exn =
    HTTPException nat string
  | KeyError string
  | TypeError string
  | FileNotFoundError string
  | OSError string

text \<open>\<open>str(e)\<close> of an exception caught in \<open>run_analysis\<close>.\<close>

fun str_exn :: "exn \<Rightarrow> string" where
  "str_exn (HTTPException c d) = d"
| "str_exn (KeyError k) = [CHR 0x27] @ k @ [CHR 0x27]"
| "str_exn (TypeError m) = m"
| "str_exn (FileNotFoundError p) =
     ''[Errno 2] No such file or directory: '' @ [CHR 0x27] @ p @ [CHR 0x27]"
| "str_exn (OSError m) = m"

text \<open>
  \<open>d["category"] = c\<close>: item assignment succeeds on a dictionary only; every other
  value raises \<open>TypeError\<close>.
\<close>

fun setitem_category :: "json \<Rightarrow> string \<Rightarrow> exn + json" where
  "setitem_category (JDict kvs) c = Inr (JDict (AList.update ''category'' (JStr c) kvs))"
| "setitem_category (JList xs) c =
     Inl (TypeError ''list indices must be integers or slices, not str'')"
| "setitem_category JNull c =
     Inl (TypeError ([CHR 0x27] @ ''NoneType'' @ [CHR 0x27]
            @ '' object does not support item assignment''))"
| "setitem_category (JBool b) c =
     Inl (TypeError ([CHR 0x27] @ ''bool'' @ [CHR 0x27]
            @ '' object does not support item assignment''))"
| "setitem_category (JNum n) c =
     Inl (TypeError ([CHR 0x27] @ ''int'' @ [CHR 0x27]
            @ '' object does not support item assignment''))"
| "setitem_category (JStr s) c =
     Inl (TypeError ([CHR 0x27] @ ''str'' @ [CHR 0x27]
            @ '' object does not support item assignment''))"

subsection \<open>Records\<close>

datatype status = Uploaded | Processing | Completed | Failed

text \<open>\<open>AnalysisParams\<close>: pydantic checks the types only; no bound on \<open>fps\<close>.\<close>

record analysis_params =
  fps :: real
  detect_color :: string
  p_category :: "string option"

definition default_params :: analysis_params where
  "default_params = \<lparr>fps = 1, detect_color = ''green'', p_category = None\<rparr>"

text \<open>
  A job record. The keys \<open>params\<close> and \<open>error\<close> are absent until they are first
  written (\<open>None\<close> here); \<open>results\<close> is always a key, holding Python's \<open>None\<close>
  (\<open>JNull\<close>) from upload on. \<open>created_at\<close> is \<open>time.time()\<close>, taken as a real number.
\<close>

record job =
  job_id :: string
  status :: status
  filename :: string
  file_path :: string
  created_at :: real
  results :: json
  progress :: int
  category :: "string option"
  params :: "analysis_params option"
  error :: "string option"

text \<open>
  How far a scheduled \<open>run_analysis\<close> call has come. It runs in a worker thread, so
  the handlers see the store between any two of its statements: each of its writes to
  the store is a step of its own.
\<close>

datatype phase =
    Running \<comment> \<open>inside \<open>find_most_similar_charts_in_video\<close>\<close>
  | Ready json \<comment> \<open>\<open>results.json\<close> is written; next \<open>jobs[job_id]["status"] = "completed"\<close>\<close>
  | WroteStatus json \<comment> \<open>next \<open>jobs[job_id]["results"] = serializable_results\<close>\<close>
  | WroteResults \<comment> \<open>next \<open>jobs[job_id]["progress"] = 100\<close>\<close>
  | Handling string \<comment> \<open>in the \<open>except\<close> block; next \<open>jobs[job_id]["status"] = "failed"\<close>\<close>
  | WroteFailed string \<comment> \<open>next \<open>jobs[job_id]["error"] = str(e)\<close>\<close>

text \<open>The keyword arguments of one scheduled \<open>run_analysis\<close> call, and its phase.\<close>

record task =
  t_job_id :: string
  t_file_path :: string
  t_output_dir :: string
  t_fps :: real
  t_category :: "string option"
  t_pc :: phase

text \<open>
  The application state: the dictionary \<open>jobs\<close> in insertion order, the paths that
  exist on disk, and the background tasks that have been scheduled and have not finished.
\<close>

record app =
  jobs :: "(string \<times> job) list"
  fs :: "string list"
  tasks :: "task list"

definition init_app :: app where
  "init_app = \<lparr>jobs = [],
     fs = [''uploads'', ''results'', ''static'',
           ''results/gold'', ''results/btc'', ''results/usdcad''],
     tasks = []\<rparr>"

subsection \<open>Paths and the file system\<close>

definition UPLOAD_DIR :: string where "UPLOAD_DIR = ''uploads''"
definition RESULTS_DIR :: string where "RESULTS_DIR = ''results''"

text \<open>\<open>a / b\<close> of \<open>pathlib\<close>: an absolute right operand replaces the left one.\<close>

definition path_join :: "string \<Rightarrow> string \<Rightarrow> string" where
  "path_join a b = (if b \<noteq> [] \<and> hd b = CHR ''/'' then b else a @ ''/'' @ b)"

definition startswith :: "string \<Rightarrow> string \<Rightarrow> bool" where
  "startswith s p = (take (length p) s = p)"

definition endswith :: "string \<Rightarrow> string \<Rightarrow> bool" where
  "endswith s e = (length e \<le> length s \<and> drop (length s - length e) s = e)"

definition path_exists :: "string list \<Rightarrow> string \<Rightarrow> bool" where
  "path_exists files p = (p \<in> set files)"

text \<open>\<open>mkdir(exist_ok=True)\<close> and opening a file for writing add the path if it is new.\<close>

definition mkdir :: "string list \<Rightarrow> string \<Rightarrow> string list" where
  "mkdir files p = (if p \<in> set files then files else files @ [p])"

definition write_file :: "string list \<Rightarrow> string \<Rightarrow> string list" where
  "write_file files p = (if p \<in> set files then files else files @ [p])"

text \<open>
  \<open>shutil.rmtree\<close> removes the directory and everything below it. It can fail (a
  permission or I/O error): \<open>faulty\<close> lists the directories whose removal raises.
\<close>

definition rmtree :: "string list \<Rightarrow> string list \<Rightarrow> string \<Rightarrow> exn + string list" where
  "rmtree faulty files d =
     (if d \<in> set faulty then Inl (OSError d)
      else Inr (filter (\<lambda>p. p \<noteq> d \<and> \<not> startswith p (d @ ''/'')) files))"

subsection \<open>Upload\<close>

text \<open>\<open>str.lower\<close> on the letters A to Z; other characters are left as they are.\<close>

definition lower_char :: "char \<Rightarrow> char" where
  "lower_char c =
     (let n = (of_char c :: nat) in if 65 \<le> n \<and> n \<le> 90 then char_of (n + 32) else c)"

definition lower :: "string \<Rightarrow> string" where
  "lower s = map lower_char s"

definition video_extensions :: "string list" where
  "video_extensions = [''.mp4'', ''.avi'', ''.mov'', ''.mkv'']"

definition endswith_any :: "string \<Rightarrow> string list \<Rightarrow> bool" where
  "endswith_any s es = list_ex (endswith s) es"

definition upload_categories :: "string option list" where
  "upload_categories = [Some ''gold'', Some ''btc'', Some ''usdcad'', None]"

record upload_response =
  ur_job_id :: string
  ur_filename :: string
  ur_status :: status
  ur_category :: "string option"

text \<open>
  \<open>upload_video\<close>. \<open>uid\<close> is the value of \<open>str(uuid.uuid4())\<close> and \<open>now\<close> that of
  \<open>time.time()\<close>.
\<close>

definition upload_video ::
  "app \<Rightarrow> string \<Rightarrow> string option \<Rightarrow> string \<Rightarrow> real \<Rightarrow> (exn + upload_response) \<times> app" where
  "upload_video st fname cat uid now =
     (if \<not> endswith_any (lower fname) video_extensions then
        (Inl (HTTPException 400 ''Invalid file format. Please upload a video file.''), st)
      else if cat \<notin> set upload_categories then
        (Inl (HTTPException 400
           ''Invalid category. Must be 'gold', 'btc', or 'usdcad'.''), st)
      else
        let job_dir = path_join UPLOAD_DIR uid;
            fs1 = mkdir (fs st) job_dir;
            fpath = path_join job_dir fname;
            fs2 = write_file fs1 fpath;
            j = \<lparr>job_id = uid, status = Uploaded, filename = fname, file_path = fpath,
                 created_at = now, results = JNull, progress = 0, category = cat,
                 params = None, error = None\<rparr>
        in (Inr \<lparr>ur_job_id = uid, ur_filename = fname, ur_status = Uploaded,
                 ur_category = cat\<rparr>,
            st\<lparr>jobs := AList.update uid j (jobs st), fs := fs2\<rparr>))"

subsection \<open>Starting an analysis\<close>

record analyze_response =
  ar_job_id :: string
  ar_status :: status
  ar_category :: "string option"

definition analyze_video ::
  "app \<Rightarrow> string \<Rightarrow> analysis_params \<Rightarrow> (exn + analyze_response) \<times> app" where
  "analyze_video st jid ps =
     (case map_of (jobs st) jid of
        None \<Rightarrow> (Inl (HTTPException 404 ''Job not found''), st)
      | Some j \<Rightarrow>
          let j1 = j\<lparr>status := Processing, params := Some ps, progress := 0\<rparr>;
              j2 = (if truthy_str (p_category ps) then j1\<lparr>category := p_category ps\<rparr>
                    else j1);
              result_dir = path_join RESULTS_DIR jid;
              fs1 = mkdir (fs st) result_dir;
              t = \<lparr>t_job_id = jid, t_file_path = file_path j2, t_output_dir = result_dir,
                   t_fps = fps ps, t_category = category j2, t_pc = Running\<rparr>
          in (Inr \<lparr>ar_job_id = jid, ar_status = Processing, ar_category = category j2\<rparr>,
              st\<lparr>jobs := AList.update jid j2 (jobs st), fs := fs1,
                 tasks := tasks st @ [t]\<rparr>))"

subsection \<open>Status queries\<close>

text \<open>The response of \<open>get_job_status\<close>; the last two keys are optional.\<close>

record job_response =
  jr_id :: string
  jr_status :: status
  jr_filename :: string
  jr_progress :: int
  jr_category :: "string option"
  jr_results :: "json option"
  jr_error :: "string option"

text \<open>
  The results object after the statement \<open>job["results"]["category"] = job["category"]\<close>
  under its three guards; the same object is then put in the response.
\<close>

definition merge_category :: "job \<Rightarrow> json" where
  "merge_category j =
     (if truthy_str (category j) then
        (case results j of
           JDict kvs \<Rightarrow> JDict (AList.update ''category'' (JStr (the (category j))) kvs)
         | r \<Rightarrow> r)
      else results j)"

definition get_job_status :: "app \<Rightarrow> string \<Rightarrow> (exn + job_response) \<times> app" where
  "get_job_status st jid =
     (case map_of (jobs st) jid of
        None \<Rightarrow> (Inl (HTTPException 404 ''Job not found''), st)
      | Some j \<Rightarrow>
          let with_results = (status j = Completed \<and> truthy (results j));
              j1 = (if with_results then j\<lparr>results := merge_category j\<rparr> else j);
              with_error = (status j1 = Failed \<and> error j1 \<noteq> None)
          in (Inr \<lparr>jr_id = job_id j1, jr_status = status j1, jr_filename = filename j1,
                   jr_progress = progress j1, jr_category = category j1,
                   jr_results = (if with_results then Some (results j1) else None),
                   jr_error = (if with_error then error j1 else None)\<rparr>,
              st\<lparr>jobs := AList.update jid j1 (jobs st)\<rparr>))"

record job_summary =
  js_id :: string
  js_status :: status
  js_filename :: string
  js_created_at :: real
  js_category :: "string option"

definition summary :: "job \<Rightarrow> job_summary" where
  "summary j = \<lparr>js_id = job_id j, js_status = status j, js_filename = filename j,
                js_created_at = created_at j, js_category = category j\<rparr>"

text \<open>
  \<open>list.sort(key=..., reverse=True)\<close>: a stable sort in descending order, in which
  elements with equal keys keep their original order.
\<close>

definition sort_reverse :: "('a \<Rightarrow> real) \<Rightarrow> 'a list \<Rightarrow> 'a list" where
  "sort_reverse f xs = rev (sort_key f (rev xs))"

definition list_jobs :: "app \<Rightarrow> job_summary list \<times> app" where
  "list_jobs st =
     (sort_reverse js_created_at (map (\<lambda>(k, j). summary j) (jobs st)), st)"

definition list_categories :: "string list" where
  "list_categories = [''gold'', ''btc'', ''usdcad'', ''all'']"

definition list_jobs_by_category :: "app \<Rightarrow> string \<Rightarrow> (exn + job_summary list) \<times> app" where
  "list_jobs_by_category st cat =
     (if cat \<notin> set list_categories then
        (Inl (HTTPException 400
           ''Invalid category. Must be 'gold', 'btc', 'usdcad', or 'all'.''), st)
      else
        (Inr (sort_reverse js_created_at
               (map (\<lambda>(k, j). summary j)
                  (filter (\<lambda>(k, j). cat = ''all'' \<or> category j = Some cat) (jobs st)))),
         st))"

subsection \<open>The background task\<close>

definition update_progress :: "app \<Rightarrow> string \<Rightarrow> int \<Rightarrow> app" where
  "update_progress st jid p =
     (case map_of (jobs st) jid of
        None \<Rightarrow> st
      | Some j \<Rightarrow> st\<lparr>jobs := AList.update jid (j\<lparr>progress := p\<rparr>) (jobs st)\<rparr>)"

text \<open>
  What the external analysis does in one call: it either returns (and
  \<open>prepare_results_for_json\<close> yields the given value) or one of the two raises an
  exception whose \<open>str\<close> is the given message.
\<close>

datatype outcome = Returns json | Raises string

text \<open>
  The \<open>except Exception\<close> block of \<open>run_analysis\<close>. \<open>jobs[job_id]\<close> raises
  \<open>KeyError\<close> when the record is gone, and inside the handler nothing catches it.
\<close>

definition on_exception :: "app \<Rightarrow> string \<Rightarrow> string \<Rightarrow> (exn + unit) \<times> app" where
  "on_exception st jid msg =
     (case map_of (jobs st) jid of
        None \<Rightarrow> (Inl (KeyError jid), st)
      | Some j \<Rightarrow>
          (Inr (), st\<lparr>jobs := AList.update jid (j\<lparr>status := Failed, error := Some msg\<rparr>)
                               (jobs st)\<rparr>))"

text \<open>
  \<open>run_analysis\<close> as a function, when nothing happens to the store while it runs, for
  one behaviour of the external analysis: the percentages \<open>ps\<close> it passes to the
  callback, in order, then its outcome.
\<close>

definition run_analysis :: "app \<Rightarrow> task \<Rightarrow> int list \<Rightarrow> outcome \<Rightarrow> (exn + unit) \<times> app" where
  "run_analysis st0 t ps oc =
     (let jid = t_job_id t;
          st = foldl (\<lambda>s p. update_progress s jid p) st0 ps
      in case oc of
           Raises msg \<Rightarrow> on_exception st jid msg
         | Returns r \<Rightarrow>
             (case (if truthy_str (t_category t) then setitem_category r (the (t_category t))
                    else Inr r) of
                Inl e \<Rightarrow> on_exception st jid (str_exn e)
              | Inr r1 \<Rightarrow>
                  let out = t_output_dir t @ ''/results.json'' in
                  if \<not> path_exists (fs st) (t_output_dir t) then
                    on_exception st jid (str_exn (FileNotFoundError out))
                  else
                    let st1 = st\<lparr>fs := write_file (fs st) out\<rparr> in
                    (case map_of (jobs st1) jid of
                       None \<Rightarrow> on_exception st1 jid (str_exn (KeyError jid))
                     | Some j \<Rightarrow>
                         (Inr (), st1\<lparr>jobs := AList.update jid
                             (j\<lparr>status := Completed, results := r1, progress := 100\<rparr>)
                             (jobs st1)\<rparr>))))"

text \<open>
  The same function statement by statement, for a task that runs beside the handlers.
  First the part that does not touch the store: the analysis ends, the category is
  merged and \<open>results.json\<close> is written, or an exception is caught.
\<close>

definition analysis_done :: "app \<Rightarrow> task \<Rightarrow> outcome \<Rightarrow> app \<times> phase" where
  "analysis_done st t oc =
     (case oc of
        Raises msg \<Rightarrow> (st, Handling msg)
      | Returns r \<Rightarrow>
          (case (if truthy_str (t_category t) then setitem_category r (the (t_category t))
                 else Inr r) of
             Inl e \<Rightarrow> (st, Handling (str_exn e))
           | Inr r1 \<Rightarrow>
               let out = t_output_dir t @ ''/results.json'' in
               if \<not> path_exists (fs st) (t_output_dir t) then
                 (st, Handling (str_exn (FileNotFoundError out)))
               else (st\<lparr>fs := write_file (fs st) out\<rparr>, Ready r1)))"

text \<open>\<open>jobs[job_id][key] = value\<close>: \<open>None\<close> stands for the \<open>KeyError\<close> of a missing id.\<close>

definition store_write :: "app \<Rightarrow> string \<Rightarrow> (job \<Rightarrow> job) \<Rightarrow> app option" where
  "store_write st jid f =
     (case map_of (jobs st) jid of
        None \<Rightarrow> None
      | Some j \<Rightarrow> Some (st\<lparr>jobs := AList.update jid (f j) (jobs st)\<rparr>))"

text \<open>
  One write of the task: the state it leaves and either the next phase or the end of
  the task, with the \<open>KeyError\<close> that leaves \<open>run_analysis\<close> when the write of the
  \<open>except\<close> block finds no record.
\<close>

datatype written = Next phase | Done "exn + unit"

fun task_write :: "app \<Rightarrow> string \<Rightarrow> phase \<Rightarrow> app \<times> written" where
  "task_write st jid Running = (st, Next Running)"
| "task_write st jid (Ready r) =
     (case store_write st jid (\<lambda>j. j\<lparr>status := Completed\<rparr>) of
        None \<Rightarrow> (st, Next (Handling (str_exn (KeyError jid))))
      | Some st' \<Rightarrow> (st', Next (WroteStatus r)))"
| "task_write st jid (WroteStatus r) =
     (case store_write st jid (\<lambda>j. j\<lparr>results := r\<rparr>) of
        None \<Rightarrow> (st, Next (Handling (str_exn (KeyError jid))))
      | Some st' \<Rightarrow> (st', Next WroteResults))"
| "task_write st jid WroteResults =
     (case store_write st jid (\<lambda>j. j\<lparr>progress := 100\<rparr>) of
        None \<Rightarrow> (st, Next (Handling (str_exn (KeyError jid))))
      | Some st' \<Rightarrow> (st', Done (Inr ())))"
| "task_write st jid (Handling msg) =
     (case store_write st jid (\<lambda>j. j\<lparr>status := Failed\<rparr>) of
        None \<Rightarrow> (st, Done (Inl (KeyError jid)))
      | Some st' \<Rightarrow> (st', Next (WroteFailed msg)))"
| "task_write st jid (WroteFailed msg) =
     (case store_write st jid (\<lambda>j. j\<lparr>error := Some msg\<rparr>) of
        None \<Rightarrow> (st, Done (Inl (KeyError jid)))
      | Some st' \<Rightarrow> (st', Done (Inr ())))"

text \<open>The writes of a task that nothing interrupts, at most \<open>n\<close> of them.\<close>

fun writes :: "nat \<Rightarrow> app \<Rightarrow> string \<Rightarrow> phase \<Rightarrow> ((exn + unit) \<times> app) option" where
  "writes 0 st jid ph = None"
| "writes (Suc n) st jid ph =
     (case task_write st jid ph of
        (st', Done r) \<Rightarrow> Some (r, st')
      | (st', Next ph') \<Rightarrow> writes n st' jid ph')"

subsection \<open>Deletion and cleanup\<close>

record delete_response =
  dr_status :: string
  dr_job_id :: string

text \<open>
  The two guarded \<open>rmtree\<close> calls that \<open>delete_job\<close> and the cleanup loop share:
  the exception of the first call that raises, if any, and the files left on disk.
\<close>

definition remove_dirs ::
  "string list \<Rightarrow> string list \<Rightarrow> string \<Rightarrow> (exn + unit) \<times> string list" where
  "remove_dirs faulty files jid =
     (let job_upload_dir = path_join UPLOAD_DIR jid;
          job_result_dir = path_join RESULTS_DIR jid
      in case (if path_exists files job_upload_dir then rmtree faulty files job_upload_dir
               else Inr files) of
           Inl e \<Rightarrow> (Inl e, files)
         | Inr fs1 \<Rightarrow>
             (case (if path_exists fs1 job_result_dir then rmtree faulty fs1 job_result_dir
                    else Inr fs1) of
                Inl e \<Rightarrow> (Inl e, fs1)
              | Inr fs2 \<Rightarrow> (Inr (), fs2)))"

definition delete_job ::
  "string list \<Rightarrow> app \<Rightarrow> string \<Rightarrow> (exn + delete_response) \<times> app" where
  "delete_job faulty st jid =
     (if jid \<notin> fst ` set (jobs st) then (Inl (HTTPException 404 ''Job not found''), st)
      else
        let st1 = st\<lparr>jobs := AList.delete jid (jobs st)\<rparr> in
        case remove_dirs faulty (fs st1) jid of
          (Inl e, fs2) \<Rightarrow> (Inl e, st1\<lparr>fs := fs2\<rparr>)
        | (Inr u, fs2) \<Rightarrow>
            (Inr \<lparr>dr_status = ''deleted'', dr_job_id = jid\<rparr>, st1\<lparr>fs := fs2\<rparr>))"

definition retention :: real where
  "retention = 24 * 60 * 60"

definition expired :: "real \<Rightarrow> job \<Rightarrow> bool" where
  "expired current_time j = (current_time - created_at j > retention)"

text \<open>The second loop of \<open>cleanup_old_jobs\<close>, with the running \<open>removed_count\<close>.\<close>

fun cleanup_loop ::
  "string list \<Rightarrow> app \<Rightarrow> string list \<Rightarrow> nat \<Rightarrow> (exn + nat) \<times> app" where
  "cleanup_loop faulty st [] removed_count = (Inr removed_count, st)"
| "cleanup_loop faulty st (jid # rest) removed_count =
     (let st1 = (if jid \<in> fst ` set (jobs st) then st\<lparr>jobs := AList.delete jid (jobs st)\<rparr>
                 else st)
      in case remove_dirs faulty (fs st1) jid of
           (Inl e, fs2) \<Rightarrow> (Inl e, st1\<lparr>fs := fs2\<rparr>)
         | (Inr u, fs2) \<Rightarrow> cleanup_loop faulty (st1\<lparr>fs := fs2\<rparr>) rest (removed_count + 1))"

definition cleanup_old_jobs :: "string list \<Rightarrow> app \<Rightarrow> real \<Rightarrow> (exn + nat) \<times> app" where
  "cleanup_old_jobs faulty st current_time =
     (let jobs_to_remove = map fst (filter (\<lambda>(k, j). expired current_time j) (jobs st))
      in cleanup_loop faulty st jobs_to_remove 0)"

subsection \<open>Error classes\<close>

text \<open>
  The two synchronous failures of the interface are HTTP status codes in the module:
  400 for an invalid input and 404 for an unknown job id.
\<close>

fun InvalidInput :: "exn + 'a \<Rightarrow> bool" where
  "InvalidInput (Inl (HTTPException c d)) = (c = 400)"
| "InvalidInput r = False"

fun NotFound :: "exn + 'a \<Rightarrow> bool" where
  "NotFound (Inl (HTTPException c d)) = (c = 404)"
| "NotFound r = False"

subsection \<open>Runs of the server\<close>

text \<open>
  What can happen to the state, one event at a time. A scheduled task (named by its
  position among the pending ones) runs in a worker thread: it calls the progress
  callback while the analysis runs (\<open>Progress\<close>), the analysis ends (\<open>Finish\<close>), and
  then each of its writes to the store is an event (\<open>Write\<close>), so that every state
  between two of these writes is a state of the run. An event for a task that does not
  exist, or that is not in the phase of the event, changes nothing.

  The handlers are coroutines with no \<open>await\<close> between their statements: no handler
  runs inside another, and a request is one event. A write of a task can still fall
  between two statements of a handler. The states of the store at the events are the
  ones a request can find; what follows of a handler being one event is only the
  order of such a write and the handler's own reads and writes. The properties below
  that speak of every run either hold of each single write (the range of \<open>progress\<close>,
  the keys of the store), or are about runs in which a handler and the tasks never
  write the same field of a record that the handler has read (no job is analysed
  twice); the properties of a response are about one call on the state it is given.
\<close>

datatype event =
    Upload string "string option" string real
  | Analyze string analysis_params
  | GetJob string
  | ListJobs
  | ListByCategory string
  | Progress nat int
  | Finish nat outcome
  | Write nat
  | Delete "string list" string
  | Cleanup "string list" real

definition drop_task :: "nat \<Rightarrow> task list \<Rightarrow> task list" where
  "drop_task k ts = take k ts @ drop (Suc k) ts"

fun step :: "app \<Rightarrow> event \<Rightarrow> app" where
  "step st (Upload fname cat uid now) = snd (upload_video st fname cat uid now)"
| "step st (Analyze jid ps) = snd (analyze_video st jid ps)"
| "step st (GetJob jid) = snd (get_job_status st jid)"
| "step st ListJobs = snd (list_jobs st)"
| "step st (ListByCategory cat) = snd (list_jobs_by_category st cat)"
| "step st (Progress k p) =
     (if k < length (tasks st) \<and> t_pc (tasks st ! k) = Running then
        update_progress st (t_job_id (tasks st ! k)) p
      else st)"
| "step st (Finish k oc) =
     (if k < length (tasks st) \<and> t_pc (tasks st ! k) = Running then
        (case analysis_done st (tasks st ! k) oc of
           (st', ph) \<Rightarrow> st'\<lparr>tasks := (tasks st)[k := (tasks st ! k)\<lparr>t_pc := ph\<rparr>]\<rparr>)
      else st)"
| "step st (Write k) =
     (if k < length (tasks st) then
        (case task_write st (t_job_id (tasks st ! k)) (t_pc (tasks st ! k)) of
           (st', Next ph) \<Rightarrow> st'\<lparr>tasks := (tasks st)[k := (tasks st ! k)\<lparr>t_pc := ph\<rparr>]\<rparr>
         | (st', Done r) \<Rightarrow> st'\<lparr>tasks := drop_task k (tasks st)\<rparr>)
      else st)"
| "step st (Delete faulty jid) = snd (delete_job faulty st jid)"
| "step st (Cleanup faulty now) = snd (cleanup_old_jobs faulty st now)"

definition run :: "app \<Rightarrow> event list \<Rightarrow> app" where
  "run st es = foldl step st es"

subsection \<open>Observations and invariants of runs\<close>

text \<open>What a status query shows of a job: its status and its progress.\<close>

definition observe :: "app \<Rightarrow> string \<Rightarrow> (status \<times> int) option" where
  "observe st jid =
     (case fst (get_job_status st jid) of Inl e \<Rightarrow> None
      | Inr r \<Rightarrow> Some (jr_status r, jr_progress r))"

text \<open>A property of every record in the store.\<close>

definition all_jobs :: "(job \<Rightarrow> bool) \<Rightarrow> app \<Rightarrow> bool" where
  "all_jobs P st = (\<forall>kj\<in>set (jobs st). P (snd kj))"

definition in_range :: "job \<Rightarrow> bool" where
  "in_range j = (0 \<le> progress j \<and> progress j \<le> 100)"

text \<open>An event whose percentage, if it reports one, lies between 0 and 100.\<close>

fun percentage :: "event \<Rightarrow> bool" where
  "percentage (Progress k p) = (0 \<le> p \<and> p \<le> 100)"
| "percentage e = True"










subsection \<open>Example states\<close>

text \<open>One uploaded job, \<open>chart.mp4\<close> in category gold, created at time 1000.\<close>

definition gold_job :: app where
  "gold_job = run init_app [Upload ''chart.mp4'' (Some ''gold'') ''j1'' 1000]"

text \<open>Parameters with a sampling rate of zero.\<close>

definition bad_params :: analysis_params where
  "bad_params = \<lparr>fps = 0, detect_color = ''green'', p_category = None\<rparr>"

text \<open>Three uploaded jobs, created at times 1000, 3000 and 2000.\<close>

definition three_jobs :: app where
  "three_jobs = run init_app
     [Upload ''a.mp4'' (Some ''gold'') ''j1'' 1000,
      Upload ''b.avi'' (Some ''btc'') ''j2'' 3000,
      Upload ''c.mov'' None ''j3'' 2000]"

text \<open>Parameters that set the category, a result of the analysis, a faster rate.\<close>

definition gold_params :: analysis_params where
  "gold_params = \<lparr>fps = 1, detect_color = ''green'', p_category = Some ''gold''\<rparr>"

definition frame_12 :: json where
  "frame_12 = JDict [(''bestMatch'', JStr ''frame_12'')]"

definition fast_params :: analysis_params where
  "fast_params = \<lparr>fps = 2, detect_color = ''green'', p_category = None\<rparr>"

text \<open>
  The run of the specification's scenario: upload, start, one progress report of 50,
  the end of the analysis and the three writes of the completion.
\<close>

definition scenario :: "event list" where
  "scenario = [Upload ''chart.mp4'' (Some ''gold'') ''j1'' 1000, Analyze ''j1'' fast_params,
               Progress 0 50, Finish 0 (Returns frame_12), Write 0, Write 0, Write 0]"

definition completed_job :: app where
  "completed_job = run init_app scenario"

text \<open>A job deleted while its analysis is in flight.\<close>

definition deleted_in_flight :: app where
  "deleted_in_flight = run init_app
     [Upload ''chart.mp4'' (Some ''gold'') ''j1'' 1000, Analyze ''j1'' default_params,
      Delete [] ''j1'']"

text \<open>
  Two analyses of one job in flight: the second start sets the category, then the
  first task completes.
\<close>

definition overlapping_runs :: app where
  "overlapping_runs = run init_app
     [Upload ''chart.mp4'' None ''j1'' 1000, Analyze ''j1'' default_params,
      Analyze ''j1'' gold_params, Finish 0 (Returns frame_12), Write 0, Write 0, Write 0]"

text \<open>A second start after a completion and after a failure; an analysis yielding \<open>None\<close>.\<close>

definition rerun_after_completion :: app where
  "rerun_after_completion = run init_app (scenario @ [Analyze ''j1'' fast_params])"

definition rerun_after_failure :: app where
  "rerun_after_failure = run init_app
     [Upload ''chart.mp4'' (Some ''gold'') ''j1'' 1000, Analyze ''j1'' fast_params,
      Finish 0 (Raises ''boom''), Write 0, Write 0, Analyze ''j1'' fast_params]"

definition null_result :: app where
  "null_result = run init_app
     [Upload ''chart.mp4'' None ''j1'' 1000, Analyze ''j1'' fast_params,
      Finish 0 (Returns JNull), Write 0, Write 0, Write 0]"

text \<open>
  A first analysis between its writes: after the write of status completed, and after
  the write of status failed.
\<close>

definition between_completed :: app where
  "between_completed = run init_app
     [Upload ''chart.mp4'' (Some ''gold'') ''j1'' 1000, Analyze ''j1'' fast_params,
      Finish 0 (Returns frame_12), Write 0]"

definition between_failed :: app where
  "between_failed = run init_app
     [Upload ''chart.mp4'' (Some ''gold'') ''j1'' 1000, Analyze ''j1'' fast_params,
      Finish 0 (Raises ''boom''), Write 0]"

text \<open>Progress reports of 100 and of 150, and a report that follows a completion.\<close>

definition reported_100 :: app where
  "reported_100 = run init_app
     [Upload ''chart.mp4'' (Some ''gold'') ''j1'' 1000, Analyze ''j1'' fast_params,
      Progress 0 100]"

definition reported_150 :: app where
  "reported_150 = run init_app
     [Upload ''chart.mp4'' (Some ''gold'') ''j1'' 1000, Analyze ''j1'' fast_params,
      Progress 0 150]"

definition late_report :: app where
  "late_report = run init_app
     [Upload ''chart.mp4'' None ''j1'' 1000, Analyze ''j1'' default_params,
      Analyze ''j1'' gold_params, Finish 0 (Returns frame_12), Write 0, Write 0, Write 0,
      Progress 0 50]"


section \<open>Properties\<close>

subsection \<open>Auxiliary facts\<close>

lemmas model_defs =
  run_def init_app_def upload_video_def analyze_video_def get_job_status_def
  update_progress_def run_analysis_def on_exception_def analysis_done_def store_write_def
  delete_job_def remove_dirs_def
  rmtree_def cleanup_old_jobs_def expired_def retention_def list_jobs_def
  list_jobs_by_category_def list_categories_def sort_reverse_def summary_def
  merge_category_def endswith_any_def endswith_def startswith_def lower_def lower_char_def
  video_extensions_def upload_categories_def path_join_def path_exists_def
  UPLOAD_DIR_def RESULTS_DIR_def mkdir_def write_file_def drop_task_def default_params_def
  AList.delete_eq Let_def

lemma gold_job_eq:
  "gold_job = \<lparr>jobs = [(''j1'', \<lparr>job_id = ''j1'', status = Uploaded, filename = ''chart.mp4'',
        file_path = ''uploads/j1/chart.mp4'', created_at = 1000, results = JNull,
        progress = 0, category = Some ''gold'', params = None, error = None\<rparr>)],
     fs = [''uploads'', ''results'', ''static'', ''results/gold'', ''results/btc'',
           ''results/usdcad'', ''uploads/j1'', ''uploads/j1/chart.mp4''],
     tasks = []\<rparr>"
  by (simp add: gold_job_def model_defs)

lemma endswith_suffix: "endswith s e \<longleftrightarrow> suffix e s"
proof
  assume "endswith s e"
  then have "s = take (length s - length e) s @ e"
    by (metis append_take_drop_id endswith_def)
  then show "suffix e s" by (metis suffixI)
next
  assume "suffix e s"
  then obtain zs where "s = zs @ e" by (auto simp: suffix_def)
  then show "endswith s e" by (simp add: endswith_def)
qed

lemma endswith_any_iff: "endswith_any s es \<longleftrightarrow> (\<exists>e\<in>set es. suffix e s)"
  by (simp add: endswith_any_def list_ex_iff endswith_suffix)


lemma delete_job_store:
  "jid \<in> fst ` set (jobs st) \<Longrightarrow>
   jobs (snd (delete_job faulty st jid)) = AList.delete jid (jobs st)"
  by (simp add: delete_job_def Let_def split: prod.splits sum.splits)

lemma three_jobs_eq:
  "jobs three_jobs =
     [(''j1'', \<lparr>job_id = ''j1'', status = Uploaded, filename = ''a.mp4'',
        file_path = ''uploads/j1/a.mp4'', created_at = 1000, results = JNull,
        progress = 0, category = Some ''gold'', params = None, error = None\<rparr>),
      (''j2'', \<lparr>job_id = ''j2'', status = Uploaded, filename = ''b.avi'',
        file_path = ''uploads/j2/b.avi'', created_at = 3000, results = JNull,
        progress = 0, category = Some ''btc'', params = None, error = None\<rparr>),
      (''j3'', \<lparr>job_id = ''j3'', status = Uploaded, filename = ''c.mov'',
        file_path = ''uploads/j3/c.mov'', created_at = 2000, results = JNull,
        progress = 0, category = None, params = None, error = None\<rparr>)]"
  by (simp add: three_jobs_def model_defs)

lemma delete_as_filter: "AList.delete k al = filter (\<lambda>kj. fst kj \<noteq> k) al"
  by (induction al) (auto simp: AList.delete_eq)

lemma sort_reverse_mset: "mset (sort_reverse f xs) = mset xs"
  by (simp add: sort_reverse_def)

text \<open>With distinct keys the reversed stable sort is strictly descending.\<close>

lemma sort_reverse_descending:
  assumes "distinct (map f xs)"
  shows "sorted_wrt (>) (map f (sort_reverse f xs))"
proof -
  let ?ys = "map f (sort_key f (rev xs))"
  have "mset ?ys = mset (map f xs)" by simp
  then have "distinct ?ys" using assms by (metis mset_eq_imp_distinct_iff)
  moreover have "sorted ?ys" by simp
  ultimately have "sorted_wrt (<) ?ys" by (simp add: strict_sorted_iff)
  then have "sorted_wrt (>) (rev ?ys)" by (simp add: sorted_wrt_rev)
  then show ?thesis by (simp add: sort_reverse_def rev_map)
qed

lemma summary_created_at:
  "map js_created_at (map (\<lambda>(k, j). summary j) xs) = map (created_at \<circ> snd) xs"
  by (induction xs) (auto simp: summary_def)




lemmas example_defs =
  fast_params_def gold_params_def frame_12_def scenario_def completed_job_def
  rerun_after_completion_def rerun_after_failure_def null_result_def reported_100_def
  reported_150_def late_report_def between_completed_def between_failed_def observe_def

lemma deleted_in_flight_eq:
  "deleted_in_flight = \<lparr>jobs = [],
     fs = [''uploads'', ''results'', ''static'', ''results/gold'', ''results/btc'',
           ''results/usdcad''],
     tasks = [\<lparr>t_job_id = ''j1'', t_file_path = ''uploads/j1/chart.mp4'',
               t_output_dir = ''results/j1'', t_fps = 1, t_category = Some ''gold'',
               t_pc = Running\<rparr>]\<rparr>"
  by (simp add: deleted_in_flight_def model_defs)

lemma overlapping_runs_eq:
  "overlapping_runs = \<lparr>jobs = [(''j1'', \<lparr>job_id = ''j1'', status = Completed,
        filename = ''chart.mp4'', file_path = ''uploads/j1/chart.mp4'', created_at = 1000,
        results = JDict [(''bestMatch'', JStr ''frame_12'')], progress = 100,
        category = Some ''gold'', params = Some gold_params, error = None\<rparr>)],
     fs = [''uploads'', ''results'', ''static'', ''results/gold'', ''results/btc'',
           ''results/usdcad'', ''uploads/j1'', ''uploads/j1/chart.mp4'', ''results/j1'',
           ''results/j1/results.json''],
     tasks = [\<lparr>t_job_id = ''j1'', t_file_path = ''uploads/j1/chart.mp4'',
               t_output_dir = ''results/j1'', t_fps = 1, t_category = Some ''gold'',
               t_pc = Running\<rparr>]\<rparr>"
  by (simp add: overlapping_runs_def frame_12_def gold_params_def model_defs)

lemma update_progress_absent:
  "map_of (jobs st) jid = None \<Longrightarrow> update_progress st jid p = st"
  by (simp add: update_progress_def)

lemma foldl_update_progress_absent:
  "map_of (jobs st) jid = None \<Longrightarrow> foldl (\<lambda>s p. update_progress s jid p) st ps = st"
  by (induction ps) (simp_all add: update_progress_absent)

lemma on_exception_absent:
  "map_of (jobs st) jid = None \<Longrightarrow> on_exception st jid msg = (Inl (KeyError jid), st)"
  by (simp add: on_exception_def)

lemma completed_job_eq:
  "completed_job = \<lparr>jobs = [(''j1'', \<lparr>job_id = ''j1'', status = Completed,
        filename = ''chart.mp4'', file_path = ''uploads/j1/chart.mp4'', created_at = 1000,
        results = JDict [(''bestMatch'', JStr ''frame_12''), (''category'', JStr ''gold'')],
        progress = 100, category = Some ''gold'', params = Some fast_params,
        error = None\<rparr>)],
     fs = [''uploads'', ''results'', ''static'', ''results/gold'', ''results/btc'',
           ''results/usdcad'', ''uploads/j1'', ''uploads/j1/chart.mp4'', ''results/j1'',
           ''results/j1/results.json''],
     tasks = []\<rparr>"
  by (simp add: completed_job_def scenario_def frame_12_def fast_params_def model_defs)

lemma set_update_subset: "set (AList.update k v al) \<subseteq> insert (k, v) (set al)"
  by (induction al) auto

lemma all_jobs_update:
  "all_jobs P st \<Longrightarrow> P j \<Longrightarrow> jobs st' = AList.update k j (jobs st) \<Longrightarrow> all_jobs P st'"
  using set_update_subset [of k j "jobs st"] by (auto simp: all_jobs_def)

lemma all_jobs_lookup: "all_jobs P st \<Longrightarrow> map_of (jobs st) k = Some j \<Longrightarrow> P j"
  by (metis all_jobs_def map_of_SomeD snd_conv)

lemma all_jobs_subset:
  "all_jobs P st \<Longrightarrow> set (jobs st') \<subseteq> set (jobs st) \<Longrightarrow> all_jobs P st'"
  by (auto simp: all_jobs_def)

subsection \<open>What each operation does to the store\<close>

lemma upload_video_effect:
  "snd (upload_video st f c uid now) = st
   \<or> (\<exists>j. jobs (snd (upload_video st f c uid now)) = AList.update uid j (jobs st)
         \<and> tasks (snd (upload_video st f c uid now)) = tasks st
         \<and> status j = Uploaded \<and> results j = JNull \<and> error j = None \<and> progress j = 0)"
proof (cases "endswith_any (lower f) video_extensions \<and> c \<in> set upload_categories")
  case False
  then show ?thesis by (auto simp: upload_video_def)
next
  case True
  define j where "j = \<lparr>job_id = uid, status = Uploaded, filename = f,
     file_path = path_join (path_join UPLOAD_DIR uid) f, created_at = now, results = JNull,
     progress = 0, category = c, params = None, error = None\<rparr>"
  have "jobs (snd (upload_video st f c uid now)) = AList.update uid j (jobs st)"
    and "tasks (snd (upload_video st f c uid now)) = tasks st"
    using True by (simp_all add: upload_video_def Let_def j_def)
  moreover have "status j = Uploaded \<and> results j = JNull \<and> error j = None \<and> progress j = 0"
    by (simp add: j_def)
  ultimately show ?thesis by blast
qed

lemma analyze_video_effect:
  "(map_of (jobs st) jid = None \<longrightarrow> snd (analyze_video st jid ps) = st)
   \<and> (map_of (jobs st) jid = Some j \<longrightarrow>
        (\<exists>j' t. jobs (snd (analyze_video st jid ps)) = AList.update jid j' (jobs st)
           \<and> tasks (snd (analyze_video st jid ps)) = tasks st @ [t] \<and> t_job_id t = jid
           \<and> t_pc t = Running \<and> status j' = Processing \<and> progress j' = 0
           \<and> results j' = results j \<and> error j' = error j))"
proof (cases "map_of (jobs st) jid")
  case None
  then show ?thesis by (simp add: analyze_video_def)
next
  case (Some a)
  define j' where "j' = (if truthy_str (p_category ps)
     then a\<lparr>status := Processing, params := Some ps, progress := 0, category := p_category ps\<rparr>
     else a\<lparr>status := Processing, params := Some ps, progress := 0\<rparr>)"
  define t where "t = \<lparr>t_job_id = jid, t_file_path = file_path j',
     t_output_dir = path_join RESULTS_DIR jid, t_fps = fps ps, t_category = category j',
     t_pc = Running\<rparr>"
  have "jobs (snd (analyze_video st jid ps)) = AList.update jid j' (jobs st)"
    and "tasks (snd (analyze_video st jid ps)) = tasks st @ [t]"
    using Some by (simp_all add: analyze_video_def Let_def j'_def t_def)
  moreover have "t_job_id t = jid \<and> t_pc t = Running \<and> status j' = Processing \<and> progress j' = 0
      \<and> results j' = results a \<and> error j' = error a"
    by (simp add: j'_def t_def)
  ultimately show ?thesis using Some by auto
qed

lemma get_job_status_effect:
  "(map_of (jobs st) jid = None \<longrightarrow> snd (get_job_status st jid) = st)
   \<and> (map_of (jobs st) jid = Some j \<longrightarrow>
        (\<exists>r. snd (get_job_status st jid)
              = st\<lparr>jobs := AList.update jid (j\<lparr>results := r\<rparr>) (jobs st)\<rparr>
           \<and> (r = results j
              \<or> (status j = Completed
                 \<and> (\<exists>kvs c. results j = JDict kvs \<and> kvs \<noteq> [] \<and> category j = Some c \<and> c \<noteq> []
                       \<and> r = JDict (AList.update ''category'' (JStr c) kvs))))))"
proof -
  have "\<exists>r. snd (get_job_status st jid)
              = st\<lparr>jobs := AList.update jid (j\<lparr>results := r\<rparr>) (jobs st)\<rparr>
           \<and> (r = results j
              \<or> (status j = Completed
                 \<and> (\<exists>kvs c. results j = JDict kvs \<and> kvs \<noteq> [] \<and> category j = Some c \<and> c \<noteq> []
                       \<and> r = JDict (AList.update ''category'' (JStr c) kvs))))"
    if m: "map_of (jobs st) jid = Some j"
  proof (cases "status j = Completed \<and> truthy (results j)")
    case False
    then have "snd (get_job_status st jid)
        = st\<lparr>jobs := AList.update jid (j\<lparr>results := results j\<rparr>) (jobs st)\<rparr>"
      using m by (auto simp: get_job_status_def Let_def)
    then show ?thesis by blast
  next
    case True
    then have g: "snd (get_job_status st jid)
        = st\<lparr>jobs := AList.update jid (j\<lparr>results := merge_category j\<rparr>) (jobs st)\<rparr>"
      using m by (simp add: get_job_status_def Let_def)
    have "merge_category j = results j
          \<or> (\<exists>kvs c. results j = JDict kvs \<and> kvs \<noteq> [] \<and> category j = Some c \<and> c \<noteq> []
                \<and> merge_category j = JDict (AList.update ''category'' (JStr c) kvs))"
      using True
      by (cases "category j"; cases "results j") (auto simp: merge_category_def)
    then show ?thesis using g True by metis
  qed
  then show ?thesis
    by (simp add: get_job_status_def)
qed

lemma update_progress_effect:
  "(map_of (jobs st) jid = None \<longrightarrow> update_progress st jid p = st)
   \<and> (map_of (jobs st) jid = Some j \<longrightarrow>
        update_progress st jid p = st\<lparr>jobs := AList.update jid (j\<lparr>progress := p\<rparr>) (jobs st)\<rparr>)"
  by (simp add: update_progress_def)

lemma on_exception_effect:
  "(map_of (jobs st) jid = None \<longrightarrow> on_exception st jid m = (Inl (KeyError jid), st))
   \<and> (map_of (jobs st) jid = Some j \<longrightarrow>
        on_exception st jid m
          = (Inr (), st\<lparr>jobs := AList.update jid (j\<lparr>status := Failed, error := Some m\<rparr>)
                                 (jobs st)\<rparr>))"
  by (simp add: on_exception_def)

text \<open>The end of a task: nothing, a completion or a failure.\<close>

lemma setitem_category_not_null: "setitem_category r c = Inr r' \<Longrightarrow> r' \<noteq> JNull"
  by (cases r) auto

lemma run_analysis_effect:
  "tasks (snd (run_analysis st t [] oc)) = tasks st
   \<and> (map_of (jobs st) (t_job_id t) = None \<longrightarrow>
        jobs (snd (run_analysis st t [] oc)) = jobs st)
   \<and> (map_of (jobs st) (t_job_id t) = Some j \<longrightarrow>
        (\<exists>r. jobs (snd (run_analysis st t [] oc))
               = AList.update (t_job_id t)
                   (j\<lparr>status := Completed, results := r, progress := 100\<rparr>) (jobs st)
            \<and> (oc = Returns JNull \<or> r \<noteq> JNull))
        \<or> (\<exists>m. jobs (snd (run_analysis st t [] oc))
               = AList.update (t_job_id t) (j\<lparr>status := Failed, error := Some m\<rparr>) (jobs st)))"
proof (cases "map_of (jobs st) (t_job_id t)")
  case None
  then show ?thesis
    by (simp add: run_analysis_def Let_def on_exception_def
        split: outcome.splits sum.splits)
next
  case (Some j')
  have failing: "\<exists>m. jobs (snd (on_exception st (t_job_id t) msg))
       = AList.update (t_job_id t) (j'\<lparr>status := Failed, error := Some m\<rparr>) (jobs st)" for msg
    using Some by (auto simp: on_exception_def)
  have tasks_exc: "tasks (snd (on_exception st (t_job_id t) msg)) = tasks st" for msg
    using Some by (simp add: on_exception_def)
  have main: "(\<exists>r. jobs (snd (run_analysis st t [] oc))
               = AList.update (t_job_id t)
                   (j'\<lparr>status := Completed, results := r, progress := 100\<rparr>) (jobs st)
            \<and> (oc = Returns JNull \<or> r \<noteq> JNull))
        \<or> (\<exists>m. jobs (snd (run_analysis st t [] oc))
               = AList.update (t_job_id t) (j'\<lparr>status := Failed, error := Some m\<rparr>) (jobs st))"
  proof (cases oc)
    case (Raises msg)
    then show ?thesis using failing by (simp add: run_analysis_def)
  next
    case (Returns r)
    show ?thesis
    proof (cases "if truthy_str (t_category t) then setitem_category r (the (t_category t))
                  else Inr r")
      case (Inl e)
      then show ?thesis using Returns failing by (simp add: run_analysis_def)
    next
      case (Inr r1)
      have r1: "r = JNull \<or> r1 \<noteq> JNull"
        using Inr setitem_category_not_null by (auto split: if_splits)
      show ?thesis
      proof (cases "path_exists (fs st) (t_output_dir t)")
        case False
        then show ?thesis using Returns Inr failing by (simp add: run_analysis_def)
      next
        case True
        then have "jobs (snd (run_analysis st t [] oc))
            = AList.update (t_job_id t)
                (j'\<lparr>status := Completed, results := r1, progress := 100\<rparr>) (jobs st)"
          using Returns Inr Some by (simp add: run_analysis_def Let_def)
        then show ?thesis using r1 Returns by blast
      qed
    qed
  qed
  have "tasks (snd (run_analysis st t [] oc)) = tasks st"
    using Some tasks_exc
    by (simp add: run_analysis_def Let_def split: outcome.splits sum.splits)
  then show ?thesis using main Some by auto
qed

lemma delete_shrinks:
  "set (AList.delete k al) \<subseteq> set al
   \<and> (\<forall>k'. map_of (AList.delete k al) k' = None
           \<or> map_of (AList.delete k al) k' = map_of al k')"
proof -
  have "set (AList.delete k al) \<subseteq> set al"
    by (auto simp: delete_as_filter)
  moreover have "map_of (AList.delete k al) k' = None
           \<or> map_of (AList.delete k al) k' = map_of al k'" for k'
    by (simp add: AList.delete_conv')
  ultimately show ?thesis by blast
qed

lemma delete_job_effect:
  "tasks (snd (delete_job faulty st jid)) = tasks st
   \<and> set (jobs (snd (delete_job faulty st jid))) \<subseteq> set (jobs st)
   \<and> (\<forall>k. map_of (jobs (snd (delete_job faulty st jid))) k = None
          \<or> map_of (jobs (snd (delete_job faulty st jid))) k = map_of (jobs st) k)"
proof (cases "jid \<in> fst ` set (jobs st)")
  case False
  then show ?thesis by (simp add: delete_job_def)
next
  case True
  have "tasks (snd (delete_job faulty st jid)) = tasks st"
    using True by (simp add: delete_job_def Let_def split: prod.splits sum.splits)
  moreover have "jobs (snd (delete_job faulty st jid)) = AList.delete jid (jobs st)"
    using True by (rule delete_job_store)
  ultimately show ?thesis
    using delete_shrinks [of jid "jobs st"] by simp
qed

lemma cleanup_loop_effect:
  "tasks (snd (cleanup_loop faulty st ids n)) = tasks st
   \<and> set (jobs (snd (cleanup_loop faulty st ids n))) \<subseteq> set (jobs st)
   \<and> (\<forall>k. map_of (jobs (snd (cleanup_loop faulty st ids n))) k = None
          \<or> map_of (jobs (snd (cleanup_loop faulty st ids n))) k = map_of (jobs st) k)"
proof (induction ids arbitrary: st n)
  case Nil
  then show ?case by simp
next
  case (Cons jid ids)
  define st1 where "st1 = (if jid \<in> fst ` set (jobs st)
     then st\<lparr>jobs := AList.delete jid (jobs st)\<rparr> else st)"
  have st1: "tasks st1 = tasks st \<and> set (jobs st1) \<subseteq> set (jobs st)
     \<and> (\<forall>k. map_of (jobs st1) k = None \<or> map_of (jobs st1) k = map_of (jobs st) k)"
    using delete_shrinks [of jid "jobs st"] by (simp add: st1_def)
  obtain r fs2 where r: "remove_dirs faulty (fs st1) jid = (r, fs2)"
    by (cases "remove_dirs faulty (fs st1) jid") auto
  show ?case
  proof (cases r)
    case (Inl e)
    then have "snd (cleanup_loop faulty st (jid # ids) n) = st1\<lparr>fs := fs2\<rparr>"
      using r by (simp add: st1_def Let_def)
    then show ?thesis using st1 by simp
  next
    case (Inr u)
    then have "cleanup_loop faulty st (jid # ids) n
        = cleanup_loop faulty (st1\<lparr>fs := fs2\<rparr>) ids (n + 1)"
      using r by (simp add: st1_def Let_def)
    then show ?thesis
      using st1 Cons.IH [of "st1\<lparr>fs := fs2\<rparr>" "n + 1"]
      by (simp add: subset_iff) metis
  qed
qed

lemma cleanup_old_jobs_effect:
  "tasks (snd (cleanup_old_jobs faulty st now)) = tasks st
   \<and> set (jobs (snd (cleanup_old_jobs faulty st now))) \<subseteq> set (jobs st)
   \<and> (\<forall>k. map_of (jobs (snd (cleanup_old_jobs faulty st now))) k = None
          \<or> map_of (jobs (snd (cleanup_old_jobs faulty st now))) k = map_of (jobs st) k)"
  unfolding cleanup_old_jobs_def Let_def by (rule cleanup_loop_effect)

subsection \<open>Progress stays in range\<close>

lemma analysis_done_effect:
  "jobs (fst (analysis_done st t oc)) = jobs st \<and> tasks (fst (analysis_done st t oc)) = tasks st"
  by (simp add: analysis_done_def Let_def split: outcome.splits sum.splits)

text \<open>One write of a task changes the record of its job, if there is one, and nothing else.\<close>

lemma task_write_effect:
  "tasks (fst (task_write st jid ph)) = tasks st
   \<and> (map_of (jobs st) jid = None \<longrightarrow> fst (task_write st jid ph) = st)
   \<and> (map_of (jobs st) jid = Some j \<longrightarrow>
        jobs (fst (task_write st jid ph))
          = AList.update jid
              (case ph of
                 Running \<Rightarrow> j
               | Ready r \<Rightarrow> j\<lparr>status := Completed\<rparr>
               | WroteStatus r \<Rightarrow> j\<lparr>results := r\<rparr>
               | WroteResults \<Rightarrow> j\<lparr>progress := 100\<rparr>
               | Handling msg \<Rightarrow> j\<lparr>status := Failed\<rparr>
               | WroteFailed msg \<Rightarrow> j\<lparr>error := Some msg\<rparr>)
              (jobs st))"
  by (cases ph; cases "map_of (jobs st) jid")
    (simp_all add: store_write_def AList.update_triv)

lemma step_in_range_Write:
  assumes a: "all_jobs in_range st"
  shows "all_jobs in_range (step st (Write k))"
proof (cases "k < length (tasks st)")
  case False
  then show ?thesis using a by simp
next
  case True
  let ?jid = "t_job_id (tasks st ! k)" and ?ph = "t_pc (tasks st ! k)"
  let ?st1 = "fst (task_write st ?jid ?ph)"
  have "all_jobs in_range ?st1"
  proof (cases "map_of (jobs st) ?jid")
    case None
    then show ?thesis using task_write_effect [of st ?jid ?ph] a by simp
  next
    case (Some j)
    note eq = task_write_effect [of st ?jid ?ph j, THEN conjunct2, THEN conjunct2, rule_format,
        OF Some]
    have "in_range j" using all_jobs_lookup [OF a Some] .
    then show ?thesis
      by (intro all_jobs_update [OF a _ eq]) (simp add: in_range_def split: phase.splits)
  qed
  then show ?thesis
    using True by (simp add: all_jobs_def split: prod.splits written.splits)
qed

lemma step_in_range:
  assumes a: "all_jobs in_range st" and p: "percentage e"
  shows "all_jobs in_range (step st e)"
proof (cases e)
  case (Upload f c uid now)
  from upload_video_effect [of st f c uid now]
  consider "snd (upload_video st f c uid now) = st"
    | j where "jobs (snd (upload_video st f c uid now)) = AList.update uid j (jobs st)"
        "progress j = 0"
    by auto
  then show ?thesis
  proof cases
    case 1
    then show ?thesis using a by (simp add: Upload)
  next
    case 2
    have "in_range j" using 2 by (simp add: in_range_def)
    then show ?thesis using all_jobs_update [OF a _ 2(1)] by (simp add: Upload)
  qed
next
  case (Analyze jid ps)
  show ?thesis
  proof (cases "map_of (jobs st) jid")
    case None
    then show ?thesis using analyze_video_effect [of st jid ps] a by (simp add: Analyze)
  next
    case (Some j)
    then obtain j' where eq: "jobs (snd (analyze_video st jid ps)) = AList.update jid j' (jobs st)"
      and "progress j' = 0"
      using analyze_video_effect [of st jid ps j] by auto
    then have "in_range j'" by (simp add: in_range_def)
    then show ?thesis
      using all_jobs_update [OF a _ eq] by (simp add: Analyze)
  qed
next
  case (GetJob jid)
  show ?thesis
  proof (cases "map_of (jobs st) jid")
    case None
    then show ?thesis using get_job_status_effect [of st jid] a by (simp add: GetJob)
  next
    case (Some j)
    then obtain r where "snd (get_job_status st jid)
        = st\<lparr>jobs := AList.update jid (j\<lparr>results := r\<rparr>) (jobs st)\<rparr>"
      using get_job_status_effect [of st jid j] by blast
    then have eq: "jobs (snd (get_job_status st jid))
        = AList.update jid (j\<lparr>results := r\<rparr>) (jobs st)"
      by simp
    have "in_range (j\<lparr>results := r\<rparr>)"
      using all_jobs_lookup [OF a Some] by (simp add: in_range_def)
    then show ?thesis
      using all_jobs_update [OF a _ eq] by (simp add: GetJob)
  qed
next
  case ListJobs
  then show ?thesis using a by (simp add: list_jobs_def)
next
  case (ListByCategory cat)
  then show ?thesis using a by (simp add: list_jobs_by_category_def)
next
  case (Progress k pc)
  show ?thesis
  proof (cases "k < length (tasks st) \<and> t_pc (tasks st ! k) = Running")
    case False
    then show ?thesis using a by (auto simp: Progress)
  next
    case True
    let ?jid = "t_job_id (tasks st ! k)"
    show ?thesis
    proof (cases "map_of (jobs st) ?jid")
      case None
      then show ?thesis
        using update_progress_effect [of st ?jid pc] a True by (simp add: Progress)
    next
      case (Some j)
      then have eq: "jobs (update_progress st ?jid pc)
          = AList.update ?jid (j\<lparr>progress := pc\<rparr>) (jobs st)"
        using update_progress_effect [of st ?jid pc j] by simp
      have "in_range (j\<lparr>progress := pc\<rparr>)"
        using p by (simp add: Progress in_range_def)
      then show ?thesis
        using all_jobs_update [OF a _ eq] True by (simp add: Progress)
    qed
  qed
next
  case (Finish k oc)
  show ?thesis
    using a analysis_done_effect [of st "tasks st ! k" oc]
    by (auto simp: Finish all_jobs_def split: prod.splits)
next
  case (Write k)
  show ?thesis
    using step_in_range_Write [OF a] by (simp add: Write)
next
  case (Delete faulty jid)
  show ?thesis
    using delete_job_effect [of faulty st jid] a
    by (auto simp: Delete intro: all_jobs_subset)
next
  case (Cleanup faulty now)
  show ?thesis
    using cleanup_old_jobs_effect [of faulty st now] a
    by (auto simp: Cleanup intro: all_jobs_subset)
qed

lemma run_in_range:
  "all_jobs in_range st \<Longrightarrow> \<forall>e\<in>set es. percentage e \<Longrightarrow> all_jobs in_range (run st es)"
  unfolding run_def
  by (induction es arbitrary: st) (auto simp: step_in_range)

lemma observe_record:
  "observe st jid = Some (s, p) \<Longrightarrow>
   \<exists>j. map_of (jobs st) jid = Some j \<and> status j = s \<and> progress j = p"
  by (auto simp: observe_def get_job_status_def Let_def split: option.splits if_splits)

lemma run_analysis_prefix:
  "run_analysis st t ps oc
     = run_analysis (foldl (\<lambda>s p. update_progress s (t_job_id t) p) st ps) t [] oc"
  by (simp add: run_analysis_def)

subsection \<open>Results and error follow the status when no job is analysed twice\<close>


















subsection \<open>The store is a dictionary\<close>




text \<open>
  The statements of a task, run one after the other with nothing between them, are
  \<open>run_analysis\<close>.
\<close>

lemma writes_run_analysis:
  "writes 5 (fst (analysis_done st t oc)) (t_job_id t) (snd (analysis_done st t oc))
     = Some (run_analysis st t [] oc)"
proof (cases "map_of (jobs st) (t_job_id t)")
  case None
  then show ?thesis
    by (simp add: analysis_done_def run_analysis_def on_exception_def store_write_def Let_def
        eval_nat_numeral split: outcome.splits sum.splits)
next
  case (Some j)
  then show ?thesis
    by (simp add: analysis_done_def run_analysis_def on_exception_def store_write_def Let_def
        eval_nat_numeral AList.update_conv' split: outcome.splits sum.splits)
qed




subsection \<open>Upload validation\<close>

text \<open>
  Claim C6. An upload whose file name, in lower case, ends with none of the allowed video
  extensions, or whose category is given and is not gold, btc or usdcad, is refused with
  status 400 (InvalidInput), and the state it leaves is the state it found: no job
  record, no directory and no file is added.
\<close>

theorem upload_video_rejects:
  assumes "(\<not> (\<exists>e\<in>set video_extensions. suffix e (lower fname)))
           \<or> (\<exists>c. cat = Some c \<and> c \<notin> {''gold'', ''btc'', ''usdcad''})"
  shows "InvalidInput (fst (upload_video st fname cat uid now))
         \<and> snd (upload_video st fname cat uid now) = st"
  using assms
  by (auto simp: upload_video_def endswith_any_iff upload_categories_def)

theorem upload_video_rejects_witness:
  "InvalidInput (fst (upload_video init_app ''x.txt'' None ''j1'' 0))
   \<and> snd (upload_video init_app ''x.txt'' None ''j1'' 0) = init_app
   \<and> InvalidInput (fst (upload_video init_app ''Chart.MP4'' (Some ''eth'') ''j1'' 0))
   \<and> snd (upload_video init_app ''Chart.MP4'' (Some ''eth'') ''j1'' 0) = init_app"
proof -
  have a: "\<not> (\<exists>e\<in>set video_extensions. suffix e (lower ''x.txt''))"
    by (simp add: video_extensions_def lower_def lower_char_def endswith_suffix [symmetric]
        endswith_def)
  have b: "\<exists>c. Some ''eth'' = Some c \<and> c \<notin> {''gold'', ''btc'', ''usdcad''}"
    by simp
  show ?thesis
    using upload_video_rejects [of "''x.txt''" None init_app "''j1''" 0]
      upload_video_rejects [of "''Chart.MP4''" "Some ''eth''" init_app "''j1''" 0] a b
    by blast
qed

subsection \<open>Starting an analysis performs no validation\<close>

text \<open>
  Claim C4, as stated, fails: \<open>analyze_video\<close> has no check on the sampling rate. With
  \<open>fps = 0\<close> on the uploaded job the call is not refused, the record goes to
  \<open>processing\<close> and the result directory is created.
\<close>

theorem analyze_video_validation_counterexample:
  "fps bad_params \<le> 0
   \<and> ''j1'' \<in> fst ` set (jobs gold_job)
   \<and> \<not> InvalidInput (fst (analyze_video gold_job ''j1'' bad_params))
   \<and> snd (analyze_video gold_job ''j1'' bad_params) \<noteq> gold_job
   \<and> map_option status (map_of (jobs (snd (analyze_video gold_job ''j1'' bad_params))) ''j1'')
       = Some Processing
   \<and> path_exists (fs (snd (analyze_video gold_job ''j1'' bad_params))) ''results/j1''
   \<and> \<not> path_exists (fs gold_job) ''results/j1''"
  by (simp add: gold_job_eq bad_params_def model_defs)

text \<open>
  Claim C4, amended. For an existing job id, \<open>analyze_video\<close> accepts every parameter
  record, whatever its sampling rate: it is never refused as InvalidInput, answers
  \<open>processing\<close>, sets status \<open>processing\<close> and progress 0, records the parameters,
  creates the result directory and schedules the task. The only failure is NotFound
  (404) for an absent id, and it leaves the state as it was.
\<close>

theorem analyze_video_no_validation:
  "(map_of (jobs st) jid = Some j \<longrightarrow>
      \<not> InvalidInput (fst (analyze_video st jid ps))
      \<and> (\<exists>r. fst (analyze_video st jid ps) = Inr r \<and> ar_status r = Processing)
      \<and> (\<exists>j'. map_of (jobs (snd (analyze_video st jid ps))) jid = Some j'
              \<and> status j' = Processing \<and> progress j' = 0 \<and> params j' = Some ps)
      \<and> path_exists (fs (snd (analyze_video st jid ps))) (path_join RESULTS_DIR jid)
      \<and> (\<exists>t. tasks (snd (analyze_video st jid ps)) = tasks st @ [t]
             \<and> t_job_id t = jid \<and> t_fps t = fps ps))
   \<and> (map_of (jobs st) jid = None \<longrightarrow>
        NotFound (fst (analyze_video st jid ps)) \<and> snd (analyze_video st jid ps) = st)"
  by (simp add: analyze_video_def Let_def AList.update_conv' path_exists_def mkdir_def)

theorem analyze_video_no_validation_witness:
  "map_of (jobs gold_job) ''j1'' \<noteq> None
   \<and> (\<exists>r. fst (analyze_video gold_job ''j1'' bad_params) = Inr r \<and> ar_status r = Processing)
   \<and> map_of (jobs init_app) ''j1'' = None
   \<and> NotFound (fst (analyze_video init_app ''j1'' bad_params))
   \<and> snd (analyze_video init_app ''j1'' bad_params) = init_app"
proof -
  obtain j where a: "map_of (jobs gold_job) ''j1'' = Some j"
    by (simp add: gold_job_eq)
  have b: "map_of (jobs init_app) ''j1'' = None"
    by (simp add: init_app_def)
  show ?thesis
    using analyze_video_no_validation [of gold_job "''j1''" j bad_params]
      analyze_video_no_validation [of init_app "''j1''" j bad_params] a b
    by simp
qed

subsection \<open>Deletion\<close>




text \<open>
  Claim C10. \<open>delete_job\<close> pops the record before it touches the disk, and nothing puts
  it back: whichever directory removal raises, the record of a present id is absent from
  the store that the call leaves, also when the call ends in that exception.
\<close>

theorem delete_job_pops_first:
  assumes "jid \<in> fst ` set (jobs st)"
  shows "jid \<notin> fst ` set (jobs (snd (delete_job faulty st jid)))
         \<and> (\<forall>e. fst (delete_job faulty st jid) = Inl e \<longrightarrow>
               map_of (jobs (snd (delete_job faulty st jid))) jid = None)"
proof -
  have "jobs (snd (delete_job faulty st jid)) = AList.delete jid (jobs st)"
    using assms by (rule delete_job_store)
  then show ?thesis
    by (simp add: AList.delete_eq map_of_eq_None_iff image_iff)
qed

theorem delete_job_pops_first_witness:
  "''j1'' \<in> fst ` set (jobs gold_job)
   \<and> fst (delete_job [''uploads/j1''] gold_job ''j1'') = Inl (OSError ''uploads/j1'')
   \<and> ''j1'' \<notin> fst ` set (jobs (snd (delete_job [''uploads/j1''] gold_job ''j1'')))
   \<and> map_of (jobs (snd (delete_job [''uploads/j1''] gold_job ''j1''))) ''j1'' = None"
proof -
  have a: "''j1'' \<in> fst ` set (jobs gold_job)"
    by (simp add: gold_job_eq)
  have b: "fst (delete_job [''uploads/j1''] gold_job ''j1'') = Inl (OSError ''uploads/j1'')"
    by (simp add: gold_job_eq model_defs)
  show ?thesis
    using delete_job_pops_first [OF a, of "[''uploads/j1'']"] a b by blast
qed

subsection \<open>Listing\<close>

text \<open>
  Claim C8. When the jobs in the store have distinct creation times, the list that
  \<open>list_jobs\<close> returns, and the list that \<open>list_jobs_by_category\<close> returns for gold,
  btc, usdcad or all (all selecting every job), is in strictly descending order of
  \<open>created_at\<close>, newest first, and holds the summaries of exactly the selected jobs.
\<close>

theorem list_jobs_newest_first:
  assumes "distinct (map (created_at \<circ> snd) (jobs st))"
  shows "sorted_wrt (>) (map js_created_at (fst (list_jobs st)))
         \<and> mset (fst (list_jobs st)) = mset (map (summary \<circ> snd) (jobs st))
         \<and> (cat \<in> {''gold'', ''btc'', ''usdcad'', ''all''} \<longrightarrow>
              (\<exists>l. fst (list_jobs_by_category st cat) = Inr l
                 \<and> sorted_wrt (>) (map js_created_at l)
                 \<and> mset l = mset (map (summary \<circ> snd)
                      (filter (\<lambda>kj. cat = ''all'' \<or> category (snd kj) = Some cat) (jobs st)))))"
proof -
  have split_eq: "(\<lambda>(k, j). summary j) = summary \<circ> snd"
    by (simp add: fun_eq_iff)
  have d: "distinct (map js_created_at (map (\<lambda>(k, j). summary j) xs))"
    if "distinct (map (created_at \<circ> snd) xs)" for xs :: "(string \<times> job) list"
    using that by (simp only: summary_created_at)
  have all: "sorted_wrt (>) (map js_created_at (fst (list_jobs st)))"
    unfolding list_jobs_def fst_conv
    by (rule sort_reverse_descending) (rule d [OF assms])
  have all_mset: "mset (fst (list_jobs st)) = mset (map (summary \<circ> snd) (jobs st))"
    by (simp add: list_jobs_def sort_reverse_mset split_eq)
  let ?sel = "filter (\<lambda>(k, j). cat = ''all'' \<or> category j = Some cat) (jobs st)"
  have sel_eq: "?sel = filter (\<lambda>kj. cat = ''all'' \<or> category (snd kj) = Some cat) (jobs st)"
    by (simp add: case_prod_unfold)
  have "distinct (map (created_at \<circ> snd) ?sel)"
    using assms by (rule distinct_map_filter)
  then have sel: "sorted_wrt (>)
      (map js_created_at (sort_reverse js_created_at (map (\<lambda>(k, j). summary j) ?sel)))"
    by (intro sort_reverse_descending d)
  have by_cat: "\<exists>l. fst (list_jobs_by_category st cat) = Inr l
                 \<and> sorted_wrt (>) (map js_created_at l)
                 \<and> mset l = mset (map (summary \<circ> snd)
                      (filter (\<lambda>kj. cat = ''all'' \<or> category (snd kj) = Some cat) (jobs st)))"
    if "cat \<in> {''gold'', ''btc'', ''usdcad'', ''all''}"
  proof -
    have "cat \<in> set list_categories"
      using that by (simp add: list_categories_def)
    then have "fst (list_jobs_by_category st cat)
        = Inr (sort_reverse js_created_at (map (\<lambda>(k, j). summary j) ?sel))"
      by (simp add: list_jobs_by_category_def)
    then show ?thesis
      using sel by (simp add: sort_reverse_mset split_eq sel_eq)
  qed
  show ?thesis
    using all all_mset by_cat by blast
qed

theorem list_jobs_newest_first_witness:
  "distinct (map (created_at \<circ> snd) (jobs three_jobs))
   \<and> sorted_wrt (>) (map js_created_at (fst (list_jobs three_jobs)))
   \<and> map js_id (fst (list_jobs three_jobs)) = [''j2'', ''j3'', ''j1'']
   \<and> (\<exists>l. fst (list_jobs_by_category three_jobs ''all'') = Inr l
          \<and> sorted_wrt (>) (map js_created_at l) \<and> length l = 3)"
proof -
  have a: "distinct (map (created_at \<circ> snd) (jobs three_jobs))"
    by (simp add: three_jobs_eq)
  have b: "map js_id (fst (list_jobs three_jobs)) = [''j2'', ''j3'', ''j1'']"
    by (simp add: three_jobs_eq list_jobs_def sort_reverse_def summary_def)
  have c: "size (mset (map (summary \<circ> snd)
        (filter (\<lambda>kj. ''all'' = ''all'' \<or> category (snd kj) = Some ''all'')
           (jobs three_jobs)))) = 3"
    by (simp add: three_jobs_eq)
  show ?thesis
    using list_jobs_newest_first [OF a, of "''all''"] a b c
    by (metis insertI1 insertI2 size_mset)
qed

subsection \<open>Cleanup\<close>




subsection \<open>A task that ends after its job was deleted\<close>

text \<open>
  Claim C3 does not hold of the code. When the record of the task's job is gone, a
  progress update changes nothing, as claimed; but the completion write raises
  \<open>KeyError\<close>, the \<open>except\<close> block catches it, and its own write to the missing record
  raises \<open>KeyError\<close> again, which nothing catches: whatever the analysis reported and
  however it ended, \<open>run_analysis\<close> ends in \<open>KeyError\<close> of the job id. The store is left
  as it was.
\<close>

theorem run_analysis_record_gone:
  assumes "map_of (jobs st) (t_job_id t) = None"
  shows "fst (run_analysis st t ps oc) = Inl (KeyError (t_job_id t))
         \<and> jobs (snd (run_analysis st t ps oc)) = jobs st
         \<and> update_progress st (t_job_id t) p = st"
  using assms
  by (simp add: run_analysis_def Let_def foldl_update_progress_absent on_exception_absent
      update_progress_absent split: outcome.splits sum.splits)

theorem run_analysis_record_gone_witness:
  "map_of (jobs deleted_in_flight) ''j1'' = None
   \<and> fst (run_analysis deleted_in_flight (tasks deleted_in_flight ! 0) [50] (Returns frame_12))
       = Inl (KeyError ''j1'')
   \<and> fst (run_analysis deleted_in_flight (tasks deleted_in_flight ! 0) [50] (Raises ''boom''))
       = Inl (KeyError ''j1'')"
proof -
  have a: "map_of (jobs deleted_in_flight) (t_job_id (tasks deleted_in_flight ! 0)) = None"
    by (simp add: deleted_in_flight_eq)
  have b: "t_job_id (tasks deleted_in_flight ! 0) = ''j1''"
    by (simp add: deleted_in_flight_eq)
  show ?thesis
    using run_analysis_record_gone [OF a, of "[50]" "Returns frame_12"]
      run_analysis_record_gone [OF a, of "[50]" "Raises ''boom''"] a b
    by simp
qed

subsection \<open>Status queries\<close>

text \<open>
  Claim C5, as stated, fails for \<open>get_job_status\<close>: it writes the job's category into
  the stored results. After the first of two overlapping analyses has completed, the
  stored results lack the category that the second start has set, and the query adds it.
\<close>

theorem get_job_status_mutates_counterexample:
  "map_option status (map_of (jobs overlapping_runs) ''j1'') = Some Completed
   \<and> snd (get_job_status overlapping_runs ''j1'') \<noteq> overlapping_runs
   \<and> map_option results (map_of (jobs overlapping_runs) ''j1'')
       = Some (JDict [(''bestMatch'', JStr ''frame_12'')])
   \<and> map_option results (map_of (jobs (snd (get_job_status overlapping_runs ''j1''))) ''j1'')
       = Some (JDict [(''bestMatch'', JStr ''frame_12''), (''category'', JStr ''gold'')])"
  by (simp add: overlapping_runs_eq get_job_status_def merge_category_def)

text \<open>
  Claim C5, amended. \<open>list_jobs\<close> and \<open>list_jobs_by_category\<close> leave the state as it
  is, and so does \<open>get_job_status\<close> on an absent id. On a present id \<open>get_job_status\<close>
  changes at most the \<open>results\<close> field of that record, and only by setting the key
  \<open>category\<close> of a non-empty results dictionary of a completed job to the job's
  non-empty category; the state is unchanged whenever the job is not completed, has no
  category, has empty or non-dictionary results, or has results that already carry
  the job's category.
\<close>

theorem status_queries_frame:
  "(map_of (jobs st) jid = None \<longrightarrow> snd (get_job_status st jid) = st)
   \<and> (map_of (jobs st) jid = Some j \<longrightarrow>
        (\<exists>r. snd (get_job_status st jid) = st\<lparr>jobs := AList.update jid (j\<lparr>results := r\<rparr>) (jobs st)\<rparr>
           \<and> (r = results j
              \<or> (status j = Completed
                 \<and> (\<exists>kvs c. results j = JDict kvs \<and> kvs \<noteq> [] \<and> category j = Some c \<and> c \<noteq> []
                       \<and> r = JDict (AList.update ''category'' (JStr c) kvs))))))
   \<and> (map_of (jobs st) jid = Some j
        \<and> (status j \<noteq> Completed \<or> \<not> truthy_str (category j) \<or> \<not> truthy (results j)
           \<or> (\<forall>kvs. results j \<noteq> JDict kvs)
           \<or> (\<exists>kvs c. results j = JDict kvs \<and> category j = Some c
                 \<and> map_of kvs ''category'' = Some (JStr c)))
        \<longrightarrow> snd (get_job_status st jid) = st)
   \<and> snd (list_jobs st) = st
   \<and> snd (list_jobs_by_category st cat) = st"
proof -
  have same: "s\<lparr>jobs := AList.update jid (j\<lparr>results := results j\<rparr>) (jobs s)\<rparr> = s"
    if "map_of (jobs s) jid = Some j" for s :: app
    using that by (simp add: AList.update_triv)
  have unchanged: "snd (get_job_status st jid) = st"
    if m: "map_of (jobs st) jid = Some j"
      and c: "status j \<noteq> Completed \<or> \<not> truthy_str (category j) \<or> \<not> truthy (results j)
           \<or> (\<forall>kvs. results j \<noteq> JDict kvs)
           \<or> (\<exists>kvs c. results j = JDict kvs \<and> category j = Some c
                 \<and> map_of kvs ''category'' = Some (JStr c))"
  proof (cases "status j = Completed \<and> truthy (results j)")
    case False
    then show ?thesis
      using m same [OF m] by (auto simp: get_job_status_def Let_def)
  next
    case True
    have "merge_category j = results j"
      using c True
      by (cases "category j"; cases "results j")
        (auto simp: merge_category_def AList.update_triv)
    then show ?thesis
      using m True same [OF m] by (simp add: get_job_status_def Let_def)
  qed
  show ?thesis
    using get_job_status_effect [of st jid j] unchanged
    by (simp add: list_jobs_def list_jobs_by_category_def)
qed

theorem status_queries_frame_witness:
  "map_of (jobs completed_job) ''j1'' \<noteq> None
   \<and> snd (get_job_status completed_job ''j1'') = completed_job
   \<and> snd (list_jobs completed_job) = completed_job
   \<and> map_of (jobs completed_job) ''j2'' = None
   \<and> snd (get_job_status completed_job ''j2'') = completed_job"
proof -
  obtain j where a: "map_of (jobs completed_job) ''j1'' = Some j"
    and b: "results j = JDict [(''bestMatch'', JStr ''frame_12''), (''category'', JStr ''gold'')]"
    and c: "category j = Some ''gold''"
    by (simp add: completed_job_eq)
  have d: "map_of [(''bestMatch'', JStr ''frame_12''), (''category'', JStr ''gold'')] ''category''
      = Some (JStr ''gold'')"
    by simp
  have e: "map_of (jobs completed_job) ''j2'' = None"
    by (simp add: completed_job_eq)
  show ?thesis
    using status_queries_frame [of completed_job "''j1''" j]
      status_queries_frame [of completed_job "''j2''" j] a b c d e
    by auto
qed

subsection \<open>Progress\<close>

text \<open>
  Claim C2, as stated, fails: \<open>update_progress\<close> stores what it is given. A report of 100
  shows progress 100 in status processing; a report of 150 shows 150; and a report from
  a second task of the job, after the first has completed it, shows 50 in status
  completed.
\<close>

theorem progress_bounds_counterexample:
  "observe reported_100 ''j1'' = Some (Processing, 100)
   \<and> observe reported_150 ''j1'' = Some (Processing, 150)
   \<and> observe late_report ''j1'' = Some (Completed, 50)"
  by (simp add: example_defs model_defs)

text \<open>
  Claim C2, amended. In every run in which each percentage passed to the progress hook
  lies in [0,100], the progress that a status query shows lies in [0,100]. Starting an
  analysis of an existing job shows status processing and progress 0. Whenever a run of
  a task leaves its job completed, whatever it reported before, the query shows 100.
  (Progress 100 does not mean completed, and a completed job shows another value when a
  further task of the same job reports later.)
\<close>

theorem progress_bounds:
  "((\<forall>e\<in>set es. percentage e) \<longrightarrow>
      (\<forall>jid s p. observe (run init_app es) jid = Some (s, p) \<longrightarrow> 0 \<le> p \<and> p \<le> 100))
   \<and> (map_of (jobs st) jid = Some j \<longrightarrow>
        observe (snd (analyze_video st jid ps)) jid = Some (Processing, 0))
   \<and> (\<forall>s p. observe (snd (run_analysis st t pcts oc)) (t_job_id t) = Some (s, p)
          \<and> s = Completed \<longrightarrow> p = 100)"
proof -
  have init: "all_jobs in_range init_app"
    by (simp add: all_jobs_def init_app_def)
  have bounded: "0 \<le> p \<and> p \<le> 100"
    if h1: "\<forall>e\<in>set es. percentage e" and h2: "observe (run init_app es) jid = Some (s, p)"
    for jid s p
  proof -
    obtain j where "map_of (jobs (run init_app es)) jid = Some j" and "progress j = p"
      using observe_record [OF h2] by auto
    then show ?thesis
      using all_jobs_lookup [OF run_in_range [OF init h1]] by (auto simp: in_range_def)
  qed
  have reset: "observe (snd (analyze_video st jid ps)) jid = Some (Processing, 0)"
    if m: "map_of (jobs st) jid = Some j"
  proof -
    obtain j' where "jobs (snd (analyze_video st jid ps)) = AList.update jid j' (jobs st)"
      and "status j' = Processing" and "progress j' = 0"
      using analyze_video_effect [of st jid ps j] m by auto
    then show ?thesis
      by (simp add: observe_def get_job_status_def Let_def AList.update_conv')
  qed
  have forced: "p = 100"
    if o: "observe (snd (run_analysis st t pcts oc)) (t_job_id t) = Some (Completed, p)" for p
  proof -
    let ?st0 = "foldl (\<lambda>s p. update_progress s (t_job_id t) p) st pcts"
    let ?st1 = "snd (run_analysis ?st0 t [] oc)"
    obtain j1 where j1: "map_of (jobs ?st1) (t_job_id t) = Some j1" "status j1 = Completed"
      "progress j1 = p"
      using observe_record [OF o] by (auto simp: run_analysis_prefix [of st t pcts oc])
    show ?thesis
    proof (cases "map_of (jobs ?st0) (t_job_id t)")
      case None
      then show ?thesis using run_analysis_effect [of ?st0 t oc] j1 by simp
    next
      case (Some j0)
      then show ?thesis
        using run_analysis_effect [of ?st0 t oc j0] j1
        by (auto simp: AList.update_conv')
    qed
  qed
  show ?thesis
    using bounded reset forced by blast
qed

theorem progress_bounds_witness:
  "list_all percentage scenario
   \<and> observe (run init_app scenario) ''j1'' = Some (Completed, 100)
   \<and> (0::int) \<le> 100 \<and> (100::int) \<le> 100
   \<and> map_of (jobs gold_job) ''j1'' \<noteq> None
   \<and> observe (snd (analyze_video gold_job ''j1'' bad_params)) ''j1'' = Some (Processing, 0)"
proof -
  have a: "\<forall>e\<in>set scenario. percentage e"
    by (simp add: scenario_def)
  have b: "observe (run init_app scenario) ''j1'' = Some (Completed, 100)"
    using completed_job_eq by (simp add: completed_job_def observe_def get_job_status_def
        merge_category_def)
  obtain j where c: "map_of (jobs gold_job) ''j1'' = Some j"
    by (simp add: gold_job_eq)
  show ?thesis
    using progress_bounds [of scenario gold_job "''j1''" j bad_params] a b c
    by (simp add: list_all_iff)
qed

subsection \<open>Results and error against the status\<close>




end
